theory Spec2Isabelle
  imports Main "HOL-Library.AList" "HOL-Library.Word"
begin

section \<open>JavaScript values and built-ins used by main.ts\<close>

text \<open>
  The argument bag of a tool call is a \<^verbatim>\<open>Record<string, unknown>\<close>: the casts
  \<^verbatim>\<open>args.url as string\<close>, \<^verbatim>\<open>args.width as number\<close> are erased at run time, so a
  field holds whatever JSON value the client sent. The model covers the primitive
  values; arrays and objects, which a \<^verbatim>\<open>Map\<close> compares by identity, are outside it.
  \<open>JUndefined\<close> is what reading an absent field gives.

  A number is held as the text JavaScript prints it as (\<^verbatim>\<open>800\<close>, \<^verbatim>\<open>800.5\<close>, \<^verbatim>\<open>1e+21\<close>,
  \<^verbatim>\<open>NaN\<close>). Different numbers print differently, except that \<^verbatim>\<open>+0\<close> and \<^verbatim>\<open>-0\<close> both
  print \<^verbatim>\<open>0\<close>, and these two are also one key to a \<^verbatim>\<open>Map\<close>. The program prints numbers,
  tests them for truth (only \<^verbatim>\<open>0\<close> and \<^verbatim>\<open>NaN\<close> are false), uses them as keys and hands
  them to the driver; it does no arithmetic on them. A text that is printed for no
  number stands for no value, and what is proved of all values holds of it as well.
\<close>

datatype jsval = JUndefined | JNull | JBool bool | JNum string | JStr string

type_synonym args = "string \<Rightarrow> jsval option"

definition arg :: "args \<Rightarrow> string \<Rightarrow> jsval" where
  "arg a k = (case a k of None \<Rightarrow> JUndefined | Some v \<Rightarrow> v)"

text \<open>\<^verbatim>\<open>x ?? d\<close>: the default replaces \<^verbatim>\<open>undefined\<close> and \<^verbatim>\<open>null\<close> only.\<close>

fun nullish :: "jsval \<Rightarrow> jsval \<Rightarrow> jsval" where
  "nullish JUndefined d = d"
| "nullish JNull d = d"
| "nullish v d = v"

text \<open>The condition of \<^verbatim>\<open>c ? a : b\<close> (ToBoolean).\<close>

fun truthy :: "jsval \<Rightarrow> bool" where
  "truthy JUndefined = False"
| "truthy JNull = False"
| "truthy (JBool b) = b"
| "truthy (JNum t) = (t \<noteq> ''0'' \<and> t \<noteq> ''NaN'')"
| "truthy (JStr s) = (s \<noteq> [])"

text \<open>What a template literal \<^verbatim>\<open>`${v}`\<close> inserts (ToString).\<close>

fun to_string :: "jsval \<Rightarrow> string" where
  "to_string JUndefined = ''undefined''"
| "to_string JNull = ''null''"
| "to_string (JBool b) = (if b then ''true'' else ''false'')"
| "to_string (JNum t) = t"
| "to_string (JStr s) = s"

definition newline :: string where
  "newline = [CHR 0x0A]"

text \<open>\<^verbatim>\<open>xs.join(sep)\<close>.\<close>

fun join :: "string \<Rightarrow> string list \<Rightarrow> string" where
  "join sep [] = []"
| "join sep [x] = x"
| "join sep (x # y # ys) = x @ sep @ join sep (y # ys)"

text \<open>\<^verbatim>\<open>s.startsWith(p)\<close> and \<^verbatim>\<open>s.includes(p)\<close>.\<close>

definition startsWith :: "string \<Rightarrow> string \<Rightarrow> bool" where
  "startsWith s p = (take (length p) s = p)"

fun str_includes :: "string \<Rightarrow> string \<Rightarrow> bool" where
  "str_includes [] p = (p = [])"
| "str_includes (c # cs) p = (startsWith (c # cs) p \<or> str_includes cs p)"

text \<open>
  \<^verbatim>\<open>s.split(sep)\<close> for a non-empty separator: \<open>split_from sep acc s\<close> scans \<open>s\<close> with
  the characters of the current piece in \<open>acc\<close> (latest first).
\<close>

function split_from :: "string \<Rightarrow> string \<Rightarrow> string \<Rightarrow> string list" where
  "split_from sep acc [] = [rev acc]"
| "split_from sep acc (c # cs) =
     (if sep \<noteq> [] \<and> startsWith (c # cs) sep
      then rev acc # split_from sep [] (drop (length sep) (c # cs))
      else split_from sep (c # acc) cs)"
  by pat_completeness auto
termination
  by (relation "measure (\<lambda>(sep, acc, s). length s)") auto

definition str_split :: "string \<Rightarrow> string \<Rightarrow> string list" where
  "str_split s sep = split_from sep [] s"

text \<open>\<^verbatim>\<open>xs[i]\<close> on an array of strings: \<^verbatim>\<open>undefined\<close> out of range.\<close>

definition at_index :: "string list \<Rightarrow> nat \<Rightarrow> jsval" where
  "at_index xs i = (if i < length xs then JStr (xs ! i) else JUndefined)"

text \<open>
  The \<^verbatim>\<open>Map<string, string>\<close> of screenshots: keys are unique and keep their insertion
  order; \<^verbatim>\<open>set\<close> on an existing key replaces the value in place. The key is
  \<^verbatim>\<open>args.name\<close> as it arrived.
\<close>

type_synonym js_map = "(jsval \<times> string) list"

definition Map_set :: "jsval \<Rightarrow> string \<Rightarrow> js_map \<Rightarrow> js_map" where
  "Map_set k v m = AList.update k v m"

definition Map_get :: "js_map \<Rightarrow> jsval \<Rightarrow> string option" where
  "Map_get m k = map_of m k"

definition Map_keys :: "js_map \<Rightarrow> jsval list" where
  "Map_keys m = map fst m"

section \<open>The driver and the global state\<close>

text \<open>
  Playwright is an external collaborator. Each operation is a function of the state of
  the outside world \<open>'w\<close> (the browser processes and their pages): it returns how
  the promise settles, \<open>Resolved\<close> with a value or \<open>Rejected\<close> with the message of
  the error, and the world afterwards. \<open>encodeBase64\<close> of \<^verbatim>\<open>@std/encoding\<close> is
  taken as a parameter too. \<open>evaluate\<close> resolves to the text that
  \<^verbatim>\<open>JSON.stringify(result.result, null, 2)\<close> renders and the captured \<^verbatim>\<open>logs\<close>.
\<close>

type_synonym browser_h = nat
type_synonym context_h = nat
type_synonym page_h = nat
type_synonym bytes = "8 word list"

datatype 'a outcome = Resolved 'a | Rejected string

record 'w driver =
  launch :: "'w \<Rightarrow> browser_h outcome \<times> 'w"
  newContext :: "browser_h \<Rightarrow> 'w \<Rightarrow> context_h outcome \<times> 'w"
  newPage :: "context_h \<Rightarrow> 'w \<Rightarrow> page_h outcome \<times> 'w"
  on_console :: "page_h \<Rightarrow> 'w \<Rightarrow> unit outcome \<times> 'w"
  goto :: "page_h \<Rightarrow> jsval \<Rightarrow> 'w \<Rightarrow> unit outcome \<times> 'w"
  setViewportSize :: "page_h \<Rightarrow> jsval \<Rightarrow> jsval \<Rightarrow> 'w \<Rightarrow> unit outcome \<times> 'w"
  screenshot :: "page_h \<Rightarrow> 'w \<Rightarrow> bytes outcome \<times> 'w"
  locator_screenshot :: "page_h \<Rightarrow> jsval \<Rightarrow> 'w \<Rightarrow> bytes outcome \<times> 'w"
  click :: "page_h \<Rightarrow> jsval \<Rightarrow> 'w \<Rightarrow> unit outcome \<times> 'w"
  fill :: "page_h \<Rightarrow> jsval \<Rightarrow> jsval \<Rightarrow> 'w \<Rightarrow> unit outcome \<times> 'w"
  selectOption :: "page_h \<Rightarrow> jsval \<Rightarrow> jsval \<Rightarrow> 'w \<Rightarrow> unit outcome \<times> 'w"
  hover :: "page_h \<Rightarrow> jsval \<Rightarrow> 'w \<Rightarrow> unit outcome \<times> 'w"
  evaluate :: "page_h \<Rightarrow> jsval \<Rightarrow> 'w \<Rightarrow> (string \<times> string list) outcome \<times> 'w"
  encodeBase64 :: "bytes \<Rightarrow> string"

text \<open>
  A thrown value: the \<^verbatim>\<open>Error\<close> a rejected driver promise or \<^verbatim>\<open>throw new Error\<close>
  carries, or the \<^verbatim>\<open>TypeError\<close> of a method call on \<^verbatim>\<open>undefined\<close>.
\<close>

datatype error = Error string | TypeError string

fun message :: "error \<Rightarrow> string" where
  "message (Error m) = m"
| "message (TypeError m) = m"

datatype content_item = TextContent string | ImageContent string string

record CallToolResult =
  content :: "content_item list"
  isError :: bool

datatype notification = ResourcesUpdated string | ResourcesListChanged

text \<open>
  The globals \<^verbatim>\<open>browser\<close>, \<^verbatim>\<open>page\<close>, \<^verbatim>\<open>consoleLogs\<close>, \<^verbatim>\<open>screenshots\<close>; \<open>outbox\<close> is
  what \<^verbatim>\<open>server.notification\<close> has been given, in order.
\<close>

record 'w state =
  browser :: "browser_h option"
  page :: "page_h option"
  consoleLogs :: "string list"
  screenshots :: js_map
  outbox :: "notification list"
  world :: 'w

definition initial :: "'w \<Rightarrow> 'w state" where
  "initial w = \<lparr>browser = None, page = None, consoleLogs = [], screenshots = [],
     outbox = [], world = w\<rparr>"

section \<open>ensureBrowser\<close>

text \<open>The callback given to \<^verbatim>\<open>page.on("console", ...)\<close>, run on a console message.\<close>

definition console_handler :: "string \<Rightarrow> string \<Rightarrow> 'w state \<Rightarrow> 'w state" where
  "console_handler msg_type msg_text s =
     (let logEntry = ''['' @ msg_type @ ''] '' @ msg_text
      in s\<lparr>consoleLogs := consoleLogs s @ [logEntry],
           outbox := outbox s @ [ResourcesUpdated ''console://logs'']\<rparr>)"

text \<open>
  One call of \<^verbatim>\<open>ensureBrowser\<close> running alone. \<^verbatim>\<open>browser\<close> is assigned as soon as
  \<^verbatim>\<open>launch\<close> resolves, \<^verbatim>\<open>page\<close> when \<^verbatim>\<open>newPage\<close> resolves; a rejected promise leaves
  the function at that point. The result is \<^verbatim>\<open>page!\<close>: the assertion is erased at run
  time, so it is the global as it stands, \<open>None\<close> for \<^verbatim>\<open>undefined\<close>.
\<close>

definition ensureBrowser :: "'w driver \<Rightarrow> 'w state \<Rightarrow> (error + page_h option) \<times> 'w state" where
  "ensureBrowser d s =
     (if browser s = None then
        (case launch d (world s) of
           (Rejected m, w1) \<Rightarrow> (Inl (Error m), s\<lparr>world := w1\<rparr>)
         | (Resolved b, w1) \<Rightarrow>
            (case newContext d b w1 of
               (Rejected m, w2) \<Rightarrow> (Inl (Error m), s\<lparr>browser := Some b, world := w2\<rparr>)
             | (Resolved c, w2) \<Rightarrow>
                (case newPage d c w2 of
                   (Rejected m, w3) \<Rightarrow> (Inl (Error m), s\<lparr>browser := Some b, world := w3\<rparr>)
                 | (Resolved p, w3) \<Rightarrow>
                    (case on_console d p w3 of
                       (Rejected m, w4) \<Rightarrow>
                         (Inl (Error m), s\<lparr>browser := Some b, page := Some p, world := w4\<rparr>)
                     | (Resolved u, w4) \<Rightarrow>
                         (Inr (Some p), s\<lparr>browser := Some b, page := Some p, world := w4\<rparr>)))))
      else (Inr (page s), s))"

section \<open>handleToolCall\<close>

text \<open>
  \<^verbatim>\<open>await page.m(...)\<close>: a \<^verbatim>\<open>TypeError\<close> when \<^verbatim>\<open>page\<close> is \<^verbatim>\<open>undefined\<close>, otherwise the
  driver's operation, whose rejection is thrown at the \<^verbatim>\<open>await\<close>.
\<close>

definition call_page ::
  "page_h option \<Rightarrow> string \<Rightarrow> (page_h \<Rightarrow> 'w \<Rightarrow> 'a outcome \<times> 'w) \<Rightarrow> 'w \<Rightarrow> (error + 'a) \<times> 'w" where
  "call_page pg m f w =
     (case pg of
        None \<Rightarrow>
          (Inl (TypeError (''Cannot read properties of undefined (reading '' @ [CHR 0x27] @ m
             @ [CHR 0x27] @ '')'')), w)
      | Some p \<Rightarrow>
          (case f p w of
             (Resolved x, w') \<Rightarrow> (Inr x, w')
           | (Rejected e, w') \<Rightarrow> (Inl (Error e), w')))"

definition text_result :: "string \<Rightarrow> bool \<Rightarrow> CallToolResult" where
  "text_result t e = \<lparr>content = [TextContent t], isError = e\<rparr>"

type_synonym 'w tool_outcome = "(error + CallToolResult) \<times> 'w state"

definition tool_navigate :: "'w driver \<Rightarrow> page_h option \<Rightarrow> args \<Rightarrow> 'w state \<Rightarrow> 'w tool_outcome" where
  "tool_navigate d pg a s =
     (case call_page pg ''goto'' (\<lambda>p. goto d p (arg a ''url'')) (world s) of
        (Inl e, w) \<Rightarrow> (Inl e, s\<lparr>world := w\<rparr>)
      | (Inr u, w) \<Rightarrow>
          (Inr (text_result (''Navigated to '' @ to_string (arg a ''url'')) False),
           s\<lparr>world := w\<rparr>))"

definition tool_screenshot :: "'w driver \<Rightarrow> page_h option \<Rightarrow> args \<Rightarrow> 'w state \<Rightarrow> 'w tool_outcome" where
  "tool_screenshot d pg a s =
     (let width = nullish (arg a ''width'') (JNum ''800'');
          height = nullish (arg a ''height'') (JNum ''600'')
      in case call_page pg ''setViewportSize'' (\<lambda>p. setViewportSize d p width height) (world s) of
           (Inl e, w) \<Rightarrow> (Inl e, s\<lparr>world := w\<rparr>)
         | (Inr u, w) \<Rightarrow>
            (case (if truthy (arg a ''selector'')
                   then call_page pg ''locator'' (\<lambda>p. locator_screenshot d p (arg a ''selector'')) w
                   else call_page pg ''screenshot'' (\<lambda>p. screenshot d p) w) of
               (Inl e, w') \<Rightarrow> (Inl e, s\<lparr>world := w'\<rparr>)
             | (Inr buf, w') \<Rightarrow>
                (let base64Screenshot = encodeBase64 d buf
                 in (Inr \<lparr>content =
                           [TextContent (''Screenshot '' @ [CHR 0x27] @ to_string (arg a ''name'')
                              @ [CHR 0x27] @ '' taken at '' @ to_string width @ ''x''
                              @ to_string height),
                            ImageContent base64Screenshot ''image/png''],
                          isError = False\<rparr>,
                     s\<lparr>screenshots := Map_set (arg a ''name'') base64Screenshot (screenshots s),
                       outbox := outbox s @ [ResourcesListChanged],
                       world := w'\<rparr>))))"

text \<open>The five cases whose body is a \<^verbatim>\<open>try\<close> with a \<^verbatim>\<open>catch\<close> that returns an envelope.\<close>

definition tool_click :: "'w driver \<Rightarrow> page_h option \<Rightarrow> args \<Rightarrow> 'w state \<Rightarrow> 'w tool_outcome" where
  "tool_click d pg a s =
     (case call_page pg ''click'' (\<lambda>p. click d p (arg a ''selector'')) (world s) of
        (Inr u, w) \<Rightarrow> (Inr (text_result (''Clicked: '' @ to_string (arg a ''selector'')) False), s\<lparr>world := w\<rparr>)
      | (Inl e, w) \<Rightarrow>
          (Inr (text_result (''Failed to click '' @ to_string (arg a ''selector'') @ '': '' @ message e) True), s\<lparr>world := w\<rparr>))"

definition tool_fill :: "'w driver \<Rightarrow> page_h option \<Rightarrow> args \<Rightarrow> 'w state \<Rightarrow> 'w tool_outcome" where
  "tool_fill d pg a s =
     (case call_page pg ''fill'' (\<lambda>p. fill d p (arg a ''selector'') (arg a ''value'')) (world s) of
        (Inr u, w) \<Rightarrow> (Inr (text_result (''Filled '' @ to_string (arg a ''selector'') @ '' with: '' @ to_string (arg a ''value'')) False), s\<lparr>world := w\<rparr>)
      | (Inl e, w) \<Rightarrow>
          (Inr (text_result (''Failed to fill '' @ to_string (arg a ''selector'') @ '': '' @ message e) True), s\<lparr>world := w\<rparr>))"

definition tool_select :: "'w driver \<Rightarrow> page_h option \<Rightarrow> args \<Rightarrow> 'w state \<Rightarrow> 'w tool_outcome" where
  "tool_select d pg a s =
     (case call_page pg ''selectOption'' (\<lambda>p. selectOption d p (arg a ''selector'') (arg a ''value'')) (world s) of
        (Inr u, w) \<Rightarrow> (Inr (text_result (''Selected '' @ to_string (arg a ''selector'') @ '' with: '' @ to_string (arg a ''value'')) False), s\<lparr>world := w\<rparr>)
      | (Inl e, w) \<Rightarrow>
          (Inr (text_result (''Failed to select '' @ to_string (arg a ''selector'') @ '': '' @ message e) True), s\<lparr>world := w\<rparr>))"

definition tool_hover :: "'w driver \<Rightarrow> page_h option \<Rightarrow> args \<Rightarrow> 'w state \<Rightarrow> 'w tool_outcome" where
  "tool_hover d pg a s =
     (case call_page pg ''hover'' (\<lambda>p. hover d p (arg a ''selector'')) (world s) of
        (Inr u, w) \<Rightarrow> (Inr (text_result (''Hovered '' @ to_string (arg a ''selector'')) False), s\<lparr>world := w\<rparr>)
      | (Inl e, w) \<Rightarrow>
          (Inr (text_result (''Failed to hover '' @ to_string (arg a ''selector'') @ '': '' @ message e) True), s\<lparr>world := w\<rparr>))"

definition tool_evaluate :: "'w driver \<Rightarrow> page_h option \<Rightarrow> args \<Rightarrow> 'w state \<Rightarrow> 'w tool_outcome" where
  "tool_evaluate d pg a s =
     (case call_page pg ''evaluate'' (\<lambda>p. evaluate d p (arg a ''script'')) (world s) of
        (Inr (json, logs), w) \<Rightarrow>
          (Inr (text_result (''Execution result:'' @ newline @ json @ newline @ newline
                  @ ''Console output:'' @ newline @ join newline logs) False),
           s\<lparr>world := w\<rparr>)
      | (Inl e, w) \<Rightarrow>
          (Inr (text_result (''Script execution failed: '' @ message e) True), s\<lparr>world := w\<rparr>))"

text \<open>The names of \<^verbatim>\<open>TOOLS\<close>, the catalog that \<^verbatim>\<open>ListTools\<close> advertises.\<close>

definition TOOLS :: "string list" where
  "TOOLS = [''playwright_navigate'', ''playwright_screenshot'', ''playwright_click'',
     ''playwright_fill'', ''playwright_select'', ''playwright_hover'', ''playwright_evaluate'']"

text \<open>
  \<^verbatim>\<open>handleToolCall\<close>: \<^verbatim>\<open>await ensureBrowser()\<close> is its first statement, before the
  \<^verbatim>\<open>switch\<close> on the name. \<open>Inl\<close> is an exception that leaves the function (the
  returned promise rejects); \<open>Inr\<close> is the \<^verbatim>\<open>toolResult\<close>.
\<close>

definition handleToolCall :: "'w driver \<Rightarrow> string \<Rightarrow> args \<Rightarrow> 'w state \<Rightarrow> 'w tool_outcome" where
  "handleToolCall d nm a s =
     (case ensureBrowser d s of
        (Inl e, s1) \<Rightarrow> (Inl e, s1)
      | (Inr pg, s1) \<Rightarrow>
          if nm = ''playwright_navigate'' then tool_navigate d pg a s1
          else if nm = ''playwright_screenshot'' then tool_screenshot d pg a s1
          else if nm = ''playwright_click'' then tool_click d pg a s1
          else if nm = ''playwright_fill'' then tool_fill d pg a s1
          else if nm = ''playwright_select'' then tool_select d pg a s1
          else if nm = ''playwright_hover'' then tool_hover d pg a s1
          else if nm = ''playwright_evaluate'' then tool_evaluate d pg a s1
          else (Inr (text_result (''Unknown tool: '' @ nm) True), s1))"

section \<open>The resource handlers\<close>

record resource =
  uri :: string
  mimeType :: string
  name :: string

text \<open>An item of \<^verbatim>\<open>contents\<close>: its uri, its mimeType, and its \<^verbatim>\<open>text\<close> or \<^verbatim>\<open>blob\<close>.\<close>

datatype resource_contents = TextContents string string string | BlobContents string string string

definition ListResources :: "'w state \<Rightarrow> resource list" where
  "ListResources s =
     \<lparr>uri = ''console://logs'', mimeType = ''text/plain'', name = ''Browser console logs''\<rparr>
     # map (\<lambda>k. \<lparr>uri = ''screenshot://'' @ to_string k, mimeType = ''image/png'',
                  name = ''Screenshot: '' @ to_string k\<rparr>)
         (Map_keys (screenshots s))"

text \<open>
  \<^verbatim>\<open>if (screenshot)\<close> fails for \<^verbatim>\<open>undefined\<close> and for the empty string. The handler
  returns or throws; it assigns nothing.
\<close>

definition ReadResource :: "string \<Rightarrow> 'w state \<Rightarrow> error + resource_contents list" where
  "ReadResource u s =
     (if u = ''console://logs''
      then Inr [TextContents u ''text/plain'' (join newline (consoleLogs s))]
      else
        (case (if startsWith u ''screenshot://''
               then Map_get (screenshots s) (at_index (str_split u ''://'') 1)
               else None) of
           Some sc \<Rightarrow>
             if sc \<noteq> [] then Inr [BlobContents u ''image/png'' sc]
             else Inl (Error (''Resource not found: '' @ u))
         | None \<Rightarrow> Inl (Error (''Resource not found: '' @ u))))"

section \<open>ensureBrowser under the event loop\<close>

text \<open>
  An \<^verbatim>\<open>async\<close> function runs without interruption up to its next \<^verbatim>\<open>await\<close>; there
  other callers may run. A call of \<^verbatim>\<open>ensureBrowser\<close> is therefore a task that is at
  its start, suspended at one of its three \<^verbatim>\<open>await\<close>s (with the settled promise it
  will be resumed with), or done. \<open>resume\<close> runs a task up to its next suspension:
  the test \<^verbatim>\<open>!browser\<close> and the call of \<^verbatim>\<open>chromium.launch\<close> are in the first segment,
  the assignment to \<^verbatim>\<open>browser\<close> in the second.
\<close>

datatype task =
    Start
  | AwaitLaunch "browser_h outcome"
  | AwaitContext "context_h outcome"
  | AwaitPage "page_h outcome"
  | Done "error + page_h option"

fun resume :: "'w driver \<Rightarrow> task \<Rightarrow> 'w state \<Rightarrow> task \<times> 'w state" where
  "resume d Start s =
     (if browser s = None
      then (case launch d (world s) of (r, w) \<Rightarrow> (AwaitLaunch r, s\<lparr>world := w\<rparr>))
      else (Done (Inr (page s)), s))"
| "resume d (AwaitLaunch (Rejected m)) s = (Done (Inl (Error m)), s)"
| "resume d (AwaitLaunch (Resolved b)) s =
     (case newContext d b (world s) of
        (r, w) \<Rightarrow> (AwaitContext r, s\<lparr>browser := Some b, world := w\<rparr>))"
| "resume d (AwaitContext (Rejected m)) s = (Done (Inl (Error m)), s)"
| "resume d (AwaitContext (Resolved c)) s =
     (case newPage d c (world s) of (r, w) \<Rightarrow> (AwaitPage r, s\<lparr>world := w\<rparr>))"
| "resume d (AwaitPage (Rejected m)) s = (Done (Inl (Error m)), s)"
| "resume d (AwaitPage (Resolved p)) s =
     (case on_console d p (world s) of
        (Rejected m, w) \<Rightarrow> (Done (Inl (Error m)), s\<lparr>page := Some p, world := w\<rparr>)
      | (Resolved u, w) \<Rightarrow> (Done (Inr (Some p)), s\<lparr>page := Some p, world := w\<rparr>))"
| "resume d (Done r) s = (Done r, s)"

text \<open>
  Several calls in flight over the shared globals: a schedule names, step by step, the
  task the event loop resumes next.
\<close>

definition resume_task :: "'w driver \<Rightarrow> task list \<times> 'w state \<Rightarrow> nat \<Rightarrow> task list \<times> 'w state" where
  "resume_task d sys i =
     (case sys of
        (ts, s) \<Rightarrow>
          if i < length ts
          then (case resume d (ts ! i) s of (t', s') \<Rightarrow> (ts[i := t'], s'))
          else (ts, s))"

definition run_schedule :: "'w driver \<Rightarrow> nat list \<Rightarrow> task list \<times> 'w state \<Rightarrow> task list \<times> 'w state" where
  "run_schedule d sched sys = foldl (resume_task d) sys sched"

section \<open>A concrete driver\<close>

text \<open>
  The Base64 encoding of RFC 4648, which \<^verbatim>\<open>encodeBase64\<close> computes; it instantiates the
  driver's parameter in the concrete runs below.
\<close>

definition b64_char :: "nat \<Rightarrow> char" where
  "b64_char n =
     ''ABCDEFGHIJKLMNOPQRSTUVWXYZabcdefghijklmnopqrstuvwxyz0123456789+/'' ! n"

fun base64 :: "bytes \<Rightarrow> string" where
  "base64 [] = []"
| "base64 [a] =
     [b64_char (unat a div 4), b64_char (unat a mod 4 * 16), CHR ''='', CHR ''='']"
| "base64 [a, b] =
     [b64_char (unat a div 4), b64_char (unat a mod 4 * 16 + unat b div 16),
      b64_char (unat b mod 16 * 4), CHR ''='']"
| "base64 (a # b # c # r) =
     [b64_char (unat a div 4), b64_char (unat a mod 4 * 16 + unat b div 16),
      b64_char (unat b mod 16 * 4 + unat c div 64), b64_char (unat c mod 64)] @ base64 r"

text \<open>
  A world that counts what it is asked for. Every operation resolves, but a click on the
  selector \<^verbatim>\<open>#missing\<close> is rejected; handles are numbered from 0; each screenshot is
  three bytes, the last one its number.
\<close>

record counters =
  launches :: nat
  contexts :: nat
  pages :: nat
  viewport :: "(jsval \<times> jsval) option"
  shots :: nat

definition fresh :: counters where
  "fresh = \<lparr>launches = 0, contexts = 0, pages = 0, viewport = None, shots = 0\<rparr>"

definition take_shot :: "counters \<Rightarrow> bytes outcome \<times> counters" where
  "take_shot w = (Resolved [0x89, 0x50, of_nat (shots w)], w\<lparr>shots := Suc (shots w)\<rparr>)"

definition counting_driver :: "counters driver" where
  "counting_driver =
     \<lparr>launch = (\<lambda>w. (Resolved (launches w), w\<lparr>launches := Suc (launches w)\<rparr>)),
      newContext = (\<lambda>b w. (Resolved (contexts w), w\<lparr>contexts := Suc (contexts w)\<rparr>)),
      newPage = (\<lambda>c w. (Resolved (pages w), w\<lparr>pages := Suc (pages w)\<rparr>)),
      on_console = (\<lambda>p w. (Resolved (), w)),
      goto = (\<lambda>p u w. (Resolved (), w)),
      setViewportSize = (\<lambda>p wd ht w. (Resolved (), w\<lparr>viewport := Some (wd, ht)\<rparr>)),
      screenshot = (\<lambda>p. take_shot),
      locator_screenshot = (\<lambda>p sel. take_shot),
      click = (\<lambda>p sel w. (if sel = JStr ''#missing'' then Rejected ''no such element''
                             else Resolved (), w)),
      fill = (\<lambda>p sel v w. (Resolved (), w)),
      selectOption = (\<lambda>p sel v w. (Resolved (), w)),
      hover = (\<lambda>p sel w. (Resolved (), w)),
      evaluate = (\<lambda>p sc w. (Resolved (''2'', [''[log] hi'']), w)),
      encodeBase64 = base64\<rparr>"

text \<open>The same world with a \<^verbatim>\<open>browser.newContext()\<close> that is rejected.\<close>

definition no_context_driver :: "counters driver" where
  "no_context_driver = counting_driver\<lparr>newContext := \<lambda>b w. (Rejected ''context failed'', w)\<rparr>"

section \<open>The server over time\<close>

text \<open>
  What changes the globals: a console message of the page (the callback runs) and a tool
  call (run here to its end before the next event). \<^verbatim>\<open>ListResources\<close> and
  \<^verbatim>\<open>ReadResource\<close> read the globals and leave them as they are.
\<close>

datatype event =
    ConsoleMessage string string
  | CallTool string args
  | ReadRequest string
  | ListRequest

fun handle_event :: "'w driver \<Rightarrow> 'w state \<Rightarrow> event \<Rightarrow> 'w state" where
  "handle_event d s (ConsoleMessage t x) = console_handler t x s"
| "handle_event d s (CallTool nm a) = snd (handleToolCall d nm a s)"
| "handle_event d s (ReadRequest u) = s"
| "handle_event d s ListRequest = s"

definition serve :: "'w driver \<Rightarrow> event list \<Rightarrow> 'w state \<Rightarrow> 'w state" where
  "serve d evs s = foldl (handle_event d) s evs"

text \<open>The log entries of the console messages among the events, in their order.\<close>

fun log_entries :: "event list \<Rightarrow> string list" where
  "log_entries [] = []"
| "log_entries (ConsoleMessage t x # evs) = (''['' @ t @ ''] '' @ x) # log_entries evs"
| "log_entries (ev # evs) = log_entries evs"

section \<open>What a tool call leaves alone\<close>

lemma ensureBrowser_registries:
  "consoleLogs (snd (ensureBrowser d s)) = consoleLogs s \<and>
   screenshots (snd (ensureBrowser d s)) = screenshots s \<and>
   outbox (snd (ensureBrowser d s)) = outbox s"
  by (simp add: ensureBrowser_def split: prod.splits outcome.splits)

lemma ensureBrowser_existing:
  "browser s = Some b \<Longrightarrow> ensureBrowser d s = (Inr (page s), s)"
  by (simp add: ensureBrowser_def)

text \<open>The \<^verbatim>\<open>switch\<close> after a successful \<^verbatim>\<open>ensureBrowser\<close>, case by case.\<close>

lemma handleToolCall_after:
  assumes "ensureBrowser d s = (Inr pg, s1)"
  shows "handleToolCall d ''playwright_navigate'' a s = tool_navigate d pg a s1"
    and "handleToolCall d ''playwright_screenshot'' a s = tool_screenshot d pg a s1"
    and "handleToolCall d ''playwright_click'' a s = tool_click d pg a s1"
    and "handleToolCall d ''playwright_fill'' a s = tool_fill d pg a s1"
    and "handleToolCall d ''playwright_select'' a s = tool_select d pg a s1"
    and "handleToolCall d ''playwright_hover'' a s = tool_hover d pg a s1"
    and "handleToolCall d ''playwright_evaluate'' a s = tool_evaluate d pg a s1"
  using assms by (simp_all add: handleToolCall_def)

lemma handleToolCall_throws:
  assumes "ensureBrowser d s = (Inl e, s1)"
  shows "handleToolCall d nm a s = (Inl e, s1)"
  using assms by (simp add: handleToolCall_def)

lemma tool_navigate_registries:
  "consoleLogs (snd (tool_navigate d pg a s)) = consoleLogs s \<and>
   screenshots (snd (tool_navigate d pg a s)) = screenshots s"
  by (simp add: tool_navigate_def split: prod.splits sum.splits)

lemma tool_click_registries:
  "consoleLogs (snd (tool_click d pg a s)) = consoleLogs s \<and>
   screenshots (snd (tool_click d pg a s)) = screenshots s"
  by (simp add: tool_click_def split: prod.splits sum.splits)

lemma tool_fill_registries:
  "consoleLogs (snd (tool_fill d pg a s)) = consoleLogs s \<and>
   screenshots (snd (tool_fill d pg a s)) = screenshots s"
  by (simp add: tool_fill_def split: prod.splits sum.splits)

lemma tool_select_registries:
  "consoleLogs (snd (tool_select d pg a s)) = consoleLogs s \<and>
   screenshots (snd (tool_select d pg a s)) = screenshots s"
  by (simp add: tool_select_def split: prod.splits sum.splits)

lemma tool_hover_registries:
  "consoleLogs (snd (tool_hover d pg a s)) = consoleLogs s \<and>
   screenshots (snd (tool_hover d pg a s)) = screenshots s"
  by (simp add: tool_hover_def split: prod.splits sum.splits)

lemma tool_evaluate_registries:
  "consoleLogs (snd (tool_evaluate d pg a s)) = consoleLogs s \<and>
   screenshots (snd (tool_evaluate d pg a s)) = screenshots s"
  by (simp add: tool_evaluate_def split: prod.splits sum.splits)

text \<open>A screenshot call that returns has stored its image under \<^verbatim>\<open>args.name\<close>.\<close>

lemma tool_screenshot_success:
  assumes "tool_screenshot d pg a s = (Inr r, s')"
  shows "\<exists>v. content r =
             [TextContent (''Screenshot '' @ [CHR 0x27] @ to_string (arg a ''name'') @ [CHR 0x27]
                @ '' taken at '' @ to_string (nullish (arg a ''width'') (JNum ''800'')) @ ''x''
                @ to_string (nullish (arg a ''height'') (JNum ''600''))),
              ImageContent v ''image/png''] \<and> isError r = False \<and>
           screenshots s' = Map_set (arg a ''name'') v (screenshots s)"
  using assms
  by (auto simp: tool_screenshot_def Let_def split: prod.splits sum.splits if_splits)

lemma tool_screenshot_failure:
  assumes "tool_screenshot d pg a s = (Inl e, s')"
  shows "screenshots s' = screenshots s"
  using assms
  by (auto simp: tool_screenshot_def Let_def split: prod.splits sum.splits if_splits)

lemma tool_screenshot_consoleLogs:
  "consoleLogs (snd (tool_screenshot d pg a s)) = consoleLogs s"
  by (simp add: tool_screenshot_def Let_def split: prod.splits sum.splits)

lemma Map_get_set: "Map_get (Map_set k v m) k' = (if k' = k then Some v else Map_get m k')"
  by (simp add: Map_get_def Map_set_def update_conv')

lemma Map_keys_set_distinct: "distinct (Map_keys m) \<Longrightarrow> distinct (Map_keys (Map_set k v m))"
  by (simp add: Map_keys_def Map_set_def distinct_update)

lemma Map_keys_dom: "set (Map_keys m) = dom (Map_get m)"
proof -
  have "Map_get m = map_of m"
    by (rule ext) (simp add: Map_get_def)
  then show ?thesis
    by (simp add: Map_keys_def dom_map_of_conv_image_fst)
qed

lemma tool_screenshot_distinct:
  assumes "distinct (Map_keys (screenshots s))"
  shows "distinct (Map_keys (screenshots (snd (tool_screenshot d pg a s))))"
proof (cases "tool_screenshot d pg a s")
  case (Pair r s')
  then show ?thesis
    using assms tool_screenshot_success [of d pg a s _ s'] tool_screenshot_failure [of d pg a s _ s']
    by (cases r) (auto simp: Map_keys_set_distinct)
qed

lemma handleToolCall_consoleLogs:
  "consoleLogs (snd (handleToolCall d nm a s)) = consoleLogs s"
proof (cases "ensureBrowser d s")
  case (Pair r s1)
  have s1: "consoleLogs s1 = consoleLogs s"
    using ensureBrowser_registries [of d s] Pair by simp
  show ?thesis
  proof (cases r)
    case (Inl e)
    with Pair s1 show ?thesis by (simp add: handleToolCall_throws)
  next
    case (Inr pg)
    with Pair s1 show ?thesis
      by (simp add: handleToolCall_def tool_navigate_registries tool_click_registries
          tool_fill_registries tool_select_registries tool_hover_registries
          tool_evaluate_registries tool_screenshot_consoleLogs text_result_def)
  qed
qed

lemma handleToolCall_distinct:
  assumes "distinct (Map_keys (screenshots s))"
  shows "distinct (Map_keys (screenshots (snd (handleToolCall d nm a s))))"
proof (cases "ensureBrowser d s")
  case (Pair r s1)
  have s1: "distinct (Map_keys (screenshots s1))"
    using ensureBrowser_registries [of d s] Pair assms by simp
  show ?thesis
  proof (cases r)
    case (Inl e)
    with Pair s1 show ?thesis by (simp add: handleToolCall_throws)
  next
    case (Inr pg)
    with Pair s1 show ?thesis
      by (simp add: handleToolCall_def tool_navigate_registries tool_click_registries
          tool_fill_registries tool_select_registries tool_hover_registries
          tool_evaluate_registries tool_screenshot_distinct)
  qed
qed

lemma handleToolCall_screenshot_success:
  assumes "handleToolCall d ''playwright_screenshot'' a s = (Inr r, s')"
  shows "\<exists>v. content r =
             [TextContent (''Screenshot '' @ [CHR 0x27] @ to_string (arg a ''name'') @ [CHR 0x27]
                @ '' taken at '' @ to_string (nullish (arg a ''width'') (JNum ''800'')) @ ''x''
                @ to_string (nullish (arg a ''height'') (JNum ''600''))),
              ImageContent v ''image/png''] \<and> isError r = False \<and>
           screenshots s' = Map_set (arg a ''name'') v (screenshots s)"
proof (cases "ensureBrowser d s")
  case (Pair q s1)
  show ?thesis
  proof (cases q)
    case (Inl e)
    with Pair assms show ?thesis by (simp add: handleToolCall_throws)
  next
    case (Inr pg)
    with Pair have eb: "ensureBrowser d s = (Inr pg, s1)" by simp
    have "screenshots s1 = screenshots s"
      using ensureBrowser_registries [of d s] eb by simp
    moreover have "tool_screenshot d pg a s1 = (Inr r, s')"
      using assms unfolding handleToolCall_after(2) [OF eb] .
    ultimately show ?thesis
      using tool_screenshot_success [of d pg a s1 r s'] by simp
  qed
qed

section \<open>Runs of the server\<close>

lemma serve_consoleLogs:
  "consoleLogs (serve d evs s) = consoleLogs s @ log_entries evs"
proof (induction evs arbitrary: s)
  case Nil
  show ?case by (simp add: serve_def)
next
  case (Cons ev evs)
  have step: "serve d (ev # evs) s = serve d evs (handle_event d s ev)"
    by (simp add: serve_def)
  show ?case
    unfolding step Cons.IH
    by (cases ev) (simp_all add: console_handler_def handleToolCall_consoleLogs)
qed

lemma serve_distinct:
  "distinct (Map_keys (screenshots s)) \<Longrightarrow> distinct (Map_keys (screenshots (serve d evs s)))"
proof (induction evs arbitrary: s)
  case Nil
  then show ?case by (simp add: serve_def)
next
  case (Cons ev evs)
  have step: "serve d (ev # evs) s = serve d evs (handle_event d s ev)"
    by (simp add: serve_def)
  have "distinct (Map_keys (screenshots (handle_event d s ev)))"
    using Cons.prems by (cases ev) (simp_all add: console_handler_def handleToolCall_distinct)
  then show ?case
    unfolding step by (rule Cons.IH)
qed

section \<open>Runs with the counting driver\<close>

lemma ensureBrowser_counting:
  "ensureBrowser counting_driver (initial w) =
     (Inr (Some (pages w)),
      (initial w)\<lparr>browser := Some (launches w), page := Some (pages w),
        world := w\<lparr>launches := Suc (launches w), contexts := Suc (contexts w),
                   pages := Suc (pages w)\<rparr>\<rparr>)"
  by (simp add: ensureBrowser_def counting_driver_def initial_def)

lemma ensureBrowser_counting_initial:
  "ensureBrowser counting_driver (initial fresh) =
     (Inr (Some 0), \<lparr>browser = Some 0, page = Some 0, consoleLogs = [], screenshots = [],
        outbox = [], world = fresh\<lparr>launches := 1, contexts := 1, pages := 1\<rparr>\<rparr>)"
  by (simp add: ensureBrowser_def counting_driver_def initial_def fresh_def)

lemma counting_screenshot:
  "snd (tool_screenshot counting_driver (Some p) a s) =
     s\<lparr>screenshots :=
         Map_set (arg a ''name'') (base64 [0x89, 0x50, of_nat (shots (world s))]) (screenshots s),
       outbox := outbox s @ [ResourcesListChanged],
       world := (world s)\<lparr>viewport := Some (nullish (arg a ''width'') (JNum ''800''),
                                             nullish (arg a ''height'') (JNum ''600'')),
                          shots := Suc (shots (world s))\<rparr>\<rparr>"
  by (simp add: tool_screenshot_def call_page_def counting_driver_def take_shot_def Let_def)

lemma counting_screenshot_result:
  "fst (tool_screenshot counting_driver (Some p) a s) =
     Inr \<lparr>content =
            [TextContent (''Screenshot '' @ [CHR 0x27] @ to_string (arg a ''name'') @ [CHR 0x27]
               @ '' taken at '' @ to_string (nullish (arg a ''width'') (JNum ''800'')) @ ''x''
               @ to_string (nullish (arg a ''height'') (JNum ''600''))),
             ImageContent (base64 [0x89, 0x50, of_nat (shots (world s))]) ''image/png''],
          isError = False\<rparr>"
  by (simp add: tool_screenshot_def call_page_def counting_driver_def take_shot_def Let_def)

text \<open>The first and the second screenshot under a name \<open>n\<close>, from the initial state.\<close>

lemma one_capture:
  "snd (handleToolCall counting_driver ''playwright_screenshot'' (map_of [(''name'', JStr n)])
         (initial fresh)) =
   \<lparr>browser = Some 0, page = Some 0, consoleLogs = [], screenshots = [(JStr n, ''iVAA'')],
     outbox = [ResourcesListChanged],
     world = \<lparr>launches = 1, contexts = 1, pages = 1,
       viewport = Some (JNum ''800'', JNum ''600''), shots = 1\<rparr>\<rparr>"
  unfolding handleToolCall_after(2) [OF ensureBrowser_counting_initial] counting_screenshot
  by (simp add: arg_def Map_set_def fresh_def b64_char_def)

lemma second_capture:
  "snd (handleToolCall counting_driver ''playwright_screenshot'' (map_of [(''name'', JStr n)])
     \<lparr>browser = Some 0, page = Some 0, consoleLogs = [], screenshots = [(JStr n, ''iVAA'')],
       outbox = [ResourcesListChanged],
       world = \<lparr>launches = 1, contexts = 1, pages = 1,
         viewport = Some (JNum ''800'', JNum ''600''), shots = 1\<rparr>\<rparr>) =
   \<lparr>browser = Some 0, page = Some 0, consoleLogs = [], screenshots = [(JStr n, ''iVAB'')],
     outbox = [ResourcesListChanged, ResourcesListChanged],
     world = \<lparr>launches = 1, contexts = 1, pages = 1,
       viewport = Some (JNum ''800'', JNum ''600''), shots = 2\<rparr>\<rparr>"
proof -
  let ?s1 = "\<lparr>browser = Some 0, page = Some 0, consoleLogs = [], screenshots = [(JStr n, ''iVAA'')],
       outbox = [ResourcesListChanged],
       world = \<lparr>launches = 1, contexts = 1, pages = 1,
         viewport = Some (JNum ''800'', JNum ''600''), shots = 1\<rparr>\<rparr>"
  have eb: "ensureBrowser counting_driver ?s1 = (Inr (Some 0), ?s1)"
    by (simp add: ensureBrowser_def)
  show ?thesis
    unfolding handleToolCall_after(2) [OF eb] counting_screenshot
    by (simp add: arg_def Map_set_def b64_char_def)
qed

section \<open>Unknown tool names\<close>

text \<open>
  C1, as the code has it. \<^verbatim>\<open>handleToolCall\<close> awaits \<^verbatim>\<open>ensureBrowser()\<close> before it looks
  at the name, so a call with a name outside \<^verbatim>\<open>TOOLS\<close> leaves the globals exactly as
  \<^verbatim>\<open>ensureBrowser\<close> alone does (a session is created when there was none). When
  \<^verbatim>\<open>ensureBrowser\<close> throws, so does the call; otherwise the result is the envelope
  with \<^verbatim>\<open>isError: true\<close> and the text \<^verbatim>\<open>Unknown tool: <name>\<close>. In both cases the log
  buffer, the screenshots and the notifications sent are unchanged.
\<close>

theorem unknown_tool_after_ensureBrowser:
  assumes "nm \<notin> set TOOLS"
  shows "snd (handleToolCall d nm a s) = snd (ensureBrowser d s) \<and>
         fst (handleToolCall d nm a s) =
           (case fst (ensureBrowser d s) of
              Inl e \<Rightarrow> Inl e
            | Inr pg \<Rightarrow> Inr \<lparr>content = [TextContent (''Unknown tool: '' @ nm)], isError = True\<rparr>) \<and>
         consoleLogs (snd (handleToolCall d nm a s)) = consoleLogs s \<and>
         screenshots (snd (handleToolCall d nm a s)) = screenshots s \<and>
         outbox (snd (handleToolCall d nm a s)) = outbox s"
proof -
  from assms have neq: "nm \<noteq> ''playwright_navigate''" "nm \<noteq> ''playwright_screenshot''"
    "nm \<noteq> ''playwright_click''" "nm \<noteq> ''playwright_fill''" "nm \<noteq> ''playwright_select''"
    "nm \<noteq> ''playwright_hover''" "nm \<noteq> ''playwright_evaluate''"
    by (auto simp: TOOLS_def)
  have run: "handleToolCall d nm a s =
      (case ensureBrowser d s of
         (Inl e, s1) \<Rightarrow> (Inl e, s1)
       | (Inr pg, s1) \<Rightarrow> (Inr (text_result (''Unknown tool: '' @ nm) True), s1))"
    unfolding handleToolCall_def using neq by (simp split: prod.splits sum.splits)
  have st: "snd (handleToolCall d nm a s) = snd (ensureBrowser d s)"
    by (simp add: run split: prod.splits sum.splits)
  have res: "fst (handleToolCall d nm a s) =
           (case fst (ensureBrowser d s) of
              Inl e \<Rightarrow> Inl e
            | Inr pg \<Rightarrow> Inr \<lparr>content = [TextContent (''Unknown tool: '' @ nm)], isError = True\<rparr>)"
    by (simp add: run text_result_def split: prod.splits sum.splits)
  show ?thesis
    using st res ensureBrowser_registries [of d s] by simp
qed

theorem unknown_tool_after_ensureBrowser_witness:
  "''nonexistent'' \<notin> set TOOLS \<and>
   fst (handleToolCall counting_driver ''nonexistent'' Map.empty (initial fresh)) =
     Inr \<lparr>content = [TextContent ''Unknown tool: nonexistent''], isError = True\<rparr> \<and>
   screenshots (snd (handleToolCall counting_driver ''nonexistent'' Map.empty (initial fresh))) = [] \<and>
   consoleLogs (snd (handleToolCall counting_driver ''nonexistent'' Map.empty (initial fresh))) = []"
proof -
  have h: "''nonexistent'' \<notin> set TOOLS" by (simp add: TOOLS_def)
  show ?thesis
    using h unknown_tool_after_ensureBrowser [OF h, of counting_driver Map.empty "initial fresh"]
    by (simp add: ensureBrowser_counting_initial)
qed

text \<open>
  The claim as stated fails: from the initial state (no browser, nothing launched) the
  call with the name \<^verbatim>\<open>nonexistent\<close> and no arguments launches the engine and leaves a
  browser and a page behind.
\<close>

theorem unknown_tool_creates_session_counterexample:
  "''nonexistent'' \<notin> set TOOLS \<and>
   browser (initial fresh) = None \<and>
   browser (snd (handleToolCall counting_driver ''nonexistent'' Map.empty (initial fresh))) = Some 0 \<and>
   page (snd (handleToolCall counting_driver ''nonexistent'' Map.empty (initial fresh))) = Some 0 \<and>
   launches (world (initial fresh)) = 0 \<and>
   launches (world (snd (handleToolCall counting_driver ''nonexistent'' Map.empty (initial fresh)))) = 1"
  by (simp add: handleToolCall_def ensureBrowser_counting_initial TOOLS_def)
     (simp add: initial_def fresh_def)

section \<open>Driver failures inside a tool call\<close>

text \<open>
  The five cases with a \<^verbatim>\<open>try\<close>/\<^verbatim>\<open>catch\<close> return an envelope whatever the driver does,
  once \<^verbatim>\<open>ensureBrowser\<close> has returned; a rejected click is reported in the text.
\<close>

lemma caught_tools_envelope:
  "\<exists>r. fst (tool_click d pg a s) = Inr r"
  "\<exists>r. fst (tool_fill d pg a s) = Inr r"
  "\<exists>r. fst (tool_select d pg a s) = Inr r"
  "\<exists>r. fst (tool_hover d pg a s) = Inr r"
  "\<exists>r. fst (tool_evaluate d pg a s) = Inr r"
  by (simp_all add: tool_click_def tool_fill_def tool_select_def tool_hover_def
      tool_evaluate_def split: prod.splits sum.splits)

lemma caught_tools_return_envelope:
  assumes "nm \<in> {''playwright_click'', ''playwright_fill'', ''playwright_select'',
      ''playwright_hover'', ''playwright_evaluate''}"
    and "fst (ensureBrowser d s) = Inr pg"
  shows "\<exists>r. fst (handleToolCall d nm a s) = Inr r"
proof -
  obtain s1 where eb: "ensureBrowser d s = (Inr pg, s1)"
    using assms(2) by (cases "ensureBrowser d s") simp
  from assms(1) show ?thesis
    using handleToolCall_after [OF eb, of a] caught_tools_envelope [of d pg a s1] by auto
qed

lemma click_rejection_caught:
  assumes "ensureBrowser d s = (Inr (Some p), s1)"
    and "click d p (arg a ''selector'') (world s1) = (Rejected m, w)"
  shows "handleToolCall d ''playwright_click'' a s =
    (Inr \<lparr>content = [TextContent (''Failed to click '' @ to_string (arg a ''selector'') @ '': '' @ m)],
          isError = True\<rparr>, s1\<lparr>world := w\<rparr>)"
  using assms by (simp add: handleToolCall_def tool_click_def call_page_def text_result_def)

text \<open>\<^verbatim>\<open>playwright_navigate\<close> has no \<^verbatim>\<open>try\<close>: a rejected \<^verbatim>\<open>page.goto\<close> leaves the function.\<close>

lemma navigate_rejection_thrown:
  assumes "ensureBrowser d s = (Inr (Some p), s1)"
    and "goto d p (arg a ''url'') (world s1) = (Rejected m, w)"
  shows "handleToolCall d ''playwright_navigate'' a s = (Inl (Error m), s1\<lparr>world := w\<rparr>)"
  using assms by (simp add: handleToolCall_def tool_navigate_def call_page_def)

text \<open>
  C2 asks that a failing driver operation of any tool ends in an envelope with
  \<^verbatim>\<open>isError: true\<close>, for \<^verbatim>\<open>playwright_navigate\<close> and \<^verbatim>\<open>playwright_screenshot\<close> in
  particular. The code does so for a click (third run below) but not for these two: with
  a \<^verbatim>\<open>page.goto\<close> rejected with \<^verbatim>\<open>net::ERR_NAME_NOT_RESOLVED\<close> the navigate call throws
  that error, and with a rejected \<^verbatim>\<open>page.screenshot()\<close> the screenshot call throws; no
  envelope is returned.
\<close>

theorem navigate_and_screenshot_rejections_escape:
  "fst (handleToolCall (counting_driver\<lparr>goto := \<lambda>p u w. (Rejected ''net::ERR_NAME_NOT_RESOLVED'', w)\<rparr>)
          ''playwright_navigate'' (map_of [(''url'', JStr ''http://nowhere.invalid'')])
          (initial fresh)) = Inl (Error ''net::ERR_NAME_NOT_RESOLVED'') \<and>
   fst (handleToolCall (counting_driver\<lparr>screenshot := \<lambda>p w. (Rejected ''Target closed'', w)\<rparr>)
          ''playwright_screenshot'' (map_of [(''name'', JStr ''x'')])
          (initial fresh)) = Inl (Error ''Target closed'') \<and>
   fst (handleToolCall counting_driver ''playwright_click''
          (map_of [(''selector'', JStr ''#missing'')]) (initial fresh)) =
     Inr \<lparr>content = [TextContent ''Failed to click #missing: no such element''], isError = True\<rparr>"
  by (simp add: handleToolCall_def ensureBrowser_def tool_navigate_def tool_screenshot_def
      tool_click_def text_result_def call_page_def counting_driver_def initial_def fresh_def arg_def)

section \<open>Session creation\<close>

text \<open>A rejected \<^verbatim>\<open>chromium.launch\<close> is thrown and the globals stay as they were.\<close>

lemma launch_rejected_no_session:
  assumes "browser s = None" and "launch d (world s) = (Rejected m, w)"
  shows "ensureBrowser d s = (Inl (Error m), s\<lparr>world := w\<rparr>)"
  using assms by (simp add: ensureBrowser_def)

text \<open>
  C3 asks that a failure at any step of the creation leaves no session behind, so that
  the next call creates one afresh. With a rejected \<^verbatim>\<open>browser.newContext()\<close> the first
  \<^verbatim>\<open>ensureBrowser\<close> throws and leaves \<^verbatim>\<open>browser\<close> set and \<^verbatim>\<open>page\<close> undefined; the second
  call finds \<^verbatim>\<open>browser\<close> set, launches nothing and returns the undefined page; a
  navigate call in that state throws the \<^verbatim>\<open>TypeError\<close> of \<^verbatim>\<open>page.goto\<close> on
  \<^verbatim>\<open>undefined\<close>, even with a driver that works again.
\<close>

theorem failed_creation_leaves_browser_without_page:
  "ensureBrowser no_context_driver (initial fresh) =
     (Inl (Error ''context failed''),
      (initial fresh)\<lparr>browser := Some 0, world := fresh\<lparr>launches := 1\<rparr>\<rparr>) \<and>
   ensureBrowser no_context_driver
       ((initial fresh)\<lparr>browser := Some 0, world := fresh\<lparr>launches := 1\<rparr>\<rparr>) =
     (Inr None, (initial fresh)\<lparr>browser := Some 0, world := fresh\<lparr>launches := 1\<rparr>\<rparr>) \<and>
   fst (handleToolCall counting_driver ''playwright_navigate''
          (map_of [(''url'', JStr ''http://example.com'')])
          ((initial fresh)\<lparr>browser := Some 0, world := fresh\<lparr>launches := 1\<rparr>\<rparr>)) =
     Inl (TypeError ''Cannot read properties of undefined (reading 'goto')'')"
  by (simp add: ensureBrowser_def no_context_driver_def handleToolCall_def tool_navigate_def
      call_page_def counting_driver_def initial_def fresh_def)

text \<open>
  A single task that is resumed until it is done computes \<open>ensureBrowser\<close>: the
  sequential definition is the event loop's with no other caller in between.
\<close>

lemma ensureBrowser_alone:
  "run_schedule d [0, 0, 0, 0] ([Start], s) =
     (case ensureBrowser d s of (r, s') \<Rightarrow> ([Done r], s'))"
  by (simp add: run_schedule_def resume_task_def ensureBrowser_def
      split: prod.splits outcome.splits)

text \<open>
  C4 asks that concurrent first callers share one creation. Two calls that start while
  no browser exists and are resumed in turn both pass the test \<^verbatim>\<open>!browser\<close> before
  either has assigned it: the engine is launched twice, the first caller is given page 0
  and the second page 1, and the globals keep the second browser only. A caller that
  arrives after the first has assigned \<^verbatim>\<open>browser\<close> and before it has assigned \<^verbatim>\<open>page\<close>
  (schedule 0, 0, 1) is done at once with the undefined page.
\<close>

theorem concurrent_first_use_launches_twice:
  "run_schedule counting_driver [0, 1, 0, 1, 0, 1, 0, 1] ([Start, Start], initial fresh) =
     ([Done (Inr (Some 0)), Done (Inr (Some 1))],
      (initial fresh)\<lparr>browser := Some 1, page := Some 1,
         world := fresh\<lparr>launches := 2, contexts := 2, pages := 2\<rparr>\<rparr>) \<and>
   fst (run_schedule counting_driver [0, 0, 1] ([Start, Start], initial fresh)) =
     [AwaitContext (Resolved 0), Done (Inr None)]"
  by (simp add: run_schedule_def resume_task_def counting_driver_def initial_def fresh_def)

section \<open>The viewport of a screenshot\<close>





section \<open>Listing and reading resources\<close>

text \<open>
  C7. In every state the server reaches from its start (after any console messages, tool
  calls and resource requests, with any driver), the list of resources begins with the
  logs resource \<^verbatim>\<open>console://logs\<close> of type \<^verbatim>\<open>text/plain\<close>; the rest is one entry
  \<^verbatim>\<open>screenshot://<name>\<close> of type \<^verbatim>\<open>image/png\<close> per key of the screenshots as they
  are at the call, in insertion order; the keys are pairwise different and are exactly
  the names under which something is stored.
\<close>

theorem list_resources_of_store:
  "hd (ListResources (serve d evs (initial w))) =
     \<lparr>uri = ''console://logs'', mimeType = ''text/plain'', name = ''Browser console logs''\<rparr> \<and>
   tl (ListResources (serve d evs (initial w))) =
     map (\<lambda>k. \<lparr>uri = ''screenshot://'' @ to_string k, mimeType = ''image/png'',
                 name = ''Screenshot: '' @ to_string k\<rparr>)
       (Map_keys (screenshots (serve d evs (initial w)))) \<and>
   distinct (Map_keys (screenshots (serve d evs (initial w)))) \<and>
   set (Map_keys (screenshots (serve d evs (initial w)))) =
     dom (Map_get (screenshots (serve d evs (initial w))))"
proof -
  have "distinct (Map_keys (screenshots (initial w)))"
    by (simp add: initial_def Map_keys_def)
  then have "distinct (Map_keys (screenshots (serve d evs (initial w))))"
    by (rule serve_distinct)
  then show ?thesis
    by (simp add: ListResources_def Map_keys_dom)
qed

theorem list_resources_of_store_witness:
  "ListResources (serve counting_driver
       [CallTool ''playwright_screenshot'' (map_of [(''name'', JStr ''home'')])] (initial fresh)) =
     [\<lparr>uri = ''console://logs'', mimeType = ''text/plain'', name = ''Browser console logs''\<rparr>,
      \<lparr>uri = ''screenshot://home'', mimeType = ''image/png'', name = ''Screenshot: home''\<rparr>]"
proof -
  let ?evs = "[CallTool ''playwright_screenshot'' (map_of [(''name'', JStr ''home'')])]"
  have keys: "Map_keys (screenshots (serve counting_driver ?evs (initial fresh))) = [JStr ''home'']"
    by (simp only: serve_def foldl.simps handle_event.simps one_capture)
       (simp add: Map_keys_def)
  have "ListResources (serve counting_driver ?evs (initial fresh)) =
      hd (ListResources (serve counting_driver ?evs (initial fresh)))
      # tl (ListResources (serve counting_driver ?evs (initial fresh)))"
    by (simp add: ListResources_def)
  then show ?thesis
    using list_resources_of_store [of counting_driver ?evs fresh] keys by simp
qed

text \<open>\<^verbatim>\<open>join\<close> puts the separator before every element but the first.\<close>

lemma join_concat:
  "join sep xs = (case xs of [] \<Rightarrow> [] | e # es \<Rightarrow> e @ concat (map (\<lambda>y. sep @ y) es))"
  by (induction sep xs rule: join.induct) simp_all

lemma log_entries_map_filter:
  "log_entries evs =
     List.map_filter (\<lambda>ev. case ev of ConsoleMessage t x \<Rightarrow> Some (''['' @ t @ ''] '' @ x) | _ \<Rightarrow> None) evs"
proof (induction evs)
  case Nil
  show ?case by (simp only: log_entries.simps List.map_filter_simps)
next
  case (Cons ev evs)
  show ?case
    by (cases ev)
       (simp_all only: log_entries.simps List.map_filter_simps event.case option.case Cons.IH)
qed

text \<open>
  C8. From any state and with any driver, after any events the log buffer is what it was
  followed by the entries \<^verbatim>\<open>[type] text\<close> of the console messages among the events, all
  of them, unchanged and in the order of arrival; tool calls and resource requests in
  between add, drop and reorder nothing. Reading \<^verbatim>\<open>console://logs\<close> then returns one
  text item of type \<^verbatim>\<open>text/plain\<close>: the first entry of the buffer, and after it every
  further entry behind a line feed (character 10).
\<close>

theorem read_logs_in_arrival_order:
  "consoleLogs (serve d evs s) =
     consoleLogs s @
     List.map_filter
       (\<lambda>ev. case ev of ConsoleMessage t x \<Rightarrow> Some (''['' @ t @ ''] '' @ x) | _ \<Rightarrow> None) evs \<and>
   ReadResource ''console://logs'' (serve d evs s) =
     Inr [TextContents ''console://logs'' ''text/plain''
            (case consoleLogs (serve d evs s) of
               [] \<Rightarrow> []
             | e # es \<Rightarrow> e @ concat (map (\<lambda>y. CHR 0x0A # y) es))]"
proof -
  have logs: "consoleLogs (serve d evs s) =
     consoleLogs s @
     List.map_filter
       (\<lambda>ev. case ev of ConsoleMessage t x \<Rightarrow> Some (''['' @ t @ ''] '' @ x) | _ \<Rightarrow> None) evs"
    by (simp only: serve_consoleLogs log_entries_map_filter)
  have sep: "(\<lambda>y. newline @ y) = (\<lambda>y. CHR 0x0A # y)"
    by (rule ext) (simp add: newline_def)
  have joined: "join newline xs =
      (case xs of [] \<Rightarrow> [] | e # es \<Rightarrow> e @ concat (map (\<lambda>y. CHR 0x0A # y) es))" for xs
    unfolding join_concat [of newline xs] sep ..
  have rd: "ReadResource ''console://logs'' st =
      Inr [TextContents ''console://logs'' ''text/plain'' (join newline (consoleLogs st))]"
    for st :: "'a state"
    by (simp add: ReadResource_def)
  show ?thesis
    by (rule conjI [OF logs]) (simp only: rd joined)
qed

text \<open>
  A run from the start: a navigation creates the session, then two console messages, a
  click that fails, a read, a third message and a listing. The read returns the three
  entries on three lines.
\<close>

theorem read_logs_in_arrival_order_witness:
  "ReadResource ''console://logs''
     (serve counting_driver
        [CallTool ''playwright_navigate'' (map_of [(''url'', JStr ''http://example.com'')]),
         ConsoleMessage ''log'' ''ready'',
         ConsoleMessage ''warning'' ''slow'',
         CallTool ''playwright_click'' (map_of [(''selector'', JStr ''#missing'')]),
         ReadRequest ''console://logs'',
         ConsoleMessage ''error'' ''boom'',
         ListRequest] (initial fresh)) =
     Inr [TextContents ''console://logs'' ''text/plain''
            (''[log] ready'' @ [CHR 0x0A] @ ''[warning] slow'' @ [CHR 0x0A] @ ''[error] boom'')]"
proof -
  let ?evs = "[CallTool ''playwright_navigate'' (map_of [(''url'', JStr ''http://example.com'')]),
         ConsoleMessage ''log'' ''ready'',
         ConsoleMessage ''warning'' ''slow'',
         CallTool ''playwright_click'' (map_of [(''selector'', JStr ''#missing'')]),
         ReadRequest ''console://logs'',
         ConsoleMessage ''error'' ''boom'',
         ListRequest]"
  have "consoleLogs (initial fresh) = []" by (simp add: initial_def)
  with read_logs_in_arrival_order [of counting_driver ?evs "initial fresh"] show ?thesis
    by simp
qed

text \<open>Splitting \<^verbatim>\<open>screenshot://<n>\<close> at \<^verbatim>\<open>://\<close> when \<open>n\<close> has no \<^verbatim>\<open>://\<close> of its own.\<close>

lemma split_from_no_sep:
  "\<not> str_includes n sep \<Longrightarrow> split_from sep acc n = [rev acc @ n]"
  by (induction n arbitrary: acc) auto

lemma split_screenshot_uri:
  assumes "\<not> str_includes n ''://''"
  shows "str_split (''screenshot://'' @ n) ''://'' = [''screenshot'', n]"
  using assms by (simp add: str_split_def startsWith_def split_from_no_sep)

lemma startsWith_screenshot_uri: "startsWith (''screenshot://'' @ n) ''screenshot://''"
  by (simp add: startsWith_def)

lemma read_screenshot_uri:
  assumes "\<not> str_includes n ''://''"
  shows "ReadResource (''screenshot://'' @ n) s =
    (case Map_get (screenshots s) (JStr n) of
       Some sc \<Rightarrow>
         if sc \<noteq> [] then Inr [BlobContents (''screenshot://'' @ n) ''image/png'' sc]
         else Inl (Error (''Resource not found: '' @ ''screenshot://'' @ n))
     | None \<Rightarrow> Inl (Error (''Resource not found: '' @ ''screenshot://'' @ n)))"
proof -
  let ?u = "''screenshot://'' @ n"
  have key: "at_index (str_split ?u ''://'') 1 = JStr n"
    unfolding split_screenshot_uri [OF assms] by (simp add: at_index_def)
  have neq: "(?u = ''console://logs'') = False" by simp
  have sw: "startsWith ?u ''screenshot://'' = True"
    using startsWith_screenshot_uri [of n] by simp
  show ?thesis
    unfolding ReadResource_def key neq sw by (simp only: if_False if_True)
qed

text \<open>Identifiers of another scheme, and names under which nothing is stored, are not found.\<close>

lemma read_not_found_other_scheme:
  assumes "u \<noteq> ''console://logs''" and "\<not> startsWith u ''screenshot://''"
  shows "ReadResource u s = Inl (Error (''Resource not found: '' @ u))"
  using assms by (simp add: ReadResource_def)

lemma read_not_found_missing:
  assumes "\<not> str_includes n ''://''" and "Map_get (screenshots s) (JStr n) = None"
  shows "ReadResource (''screenshot://'' @ n) s =
    Inl (Error (''Resource not found: '' @ ''screenshot://'' @ n))"
  unfolding read_screenshot_uri [OF assms(1)] assms(2) by (simp only: option.case)

text \<open>The Base64 text of an image is empty only when the image has no bytes.\<close>

lemma base64_empty_iff: "base64 bs = [] \<longleftrightarrow> bs = []"
  by (induction bs rule: base64.induct) simp_all

text \<open>
  C10. Let the name \<open>n\<close> contain no \<^verbatim>\<open>://\<close>. When a \<^verbatim>\<open>playwright_screenshot\<close> call with
  \<^verbatim>\<open>name\<close> \<open>n\<close> has returned its envelope, whose image item carries the Base64 text
  \<open>v\<close>, reading \<^verbatim>\<open>screenshot://n\<close> in the state the call leaves returns one blob of type
  \<^verbatim>\<open>image/png\<close> with exactly \<open>v\<close>. (\<open>v\<close> is not empty: it encodes a PNG image, and
  \<^verbatim>\<open>if (screenshot)\<close> would take the empty string for a missing entry.)
\<close>

theorem stored_screenshot_read_back:
  assumes "\<not> str_includes n ''://''"
    and "a ''name'' = Some (JStr n)"
    and "handleToolCall d ''playwright_screenshot'' a s = (Inr r, s')"
    and "content r = [t, ImageContent v mt]"
    and "v \<noteq> []"
  shows "ReadResource (''screenshot://'' @ n) s' =
     Inr [BlobContents (''screenshot://'' @ n) ''image/png'' v]"
proof -
  from handleToolCall_screenshot_success [OF assms(3)] assms(4)
  have "screenshots s' = Map_set (arg a ''name'') v (screenshots s)" by auto
  then have "Map_get (screenshots s') (JStr n) = Some v"
    using assms(2) by (simp add: Map_get_set arg_def)
  then show ?thesis
    unfolding read_screenshot_uri [OF assms(1)] using assms(5) by simp
qed

theorem stored_screenshot_read_back_witness:
  "\<not> str_includes ''shot1'' ''://'' \<and>
   ReadResource ''screenshot://shot1''
     (snd (handleToolCall counting_driver ''playwright_screenshot''
        (map_of [(''name'', JStr ''shot1'')]) (initial fresh))) =
     Inr [BlobContents ''screenshot://shot1'' ''image/png'' ''iVAA'']"
proof -
  let ?a = "map_of [(''name'', JStr ''shot1'')]"
  let ?s' = "snd (handleToolCall counting_driver ''playwright_screenshot'' ?a (initial fresh))"
  let ?r = "\<lparr>content = [TextContent ''Screenshot 'shot1' taken at 800x600'',
                       ImageContent ''iVAA'' ''image/png''], isError = False\<rparr>"
  have h1: "\<not> str_includes ''shot1'' ''://''"
    by (simp add: startsWith_def)
  have h2: "?a ''name'' = Some (JStr ''shot1'')" by simp
  have "fst (handleToolCall counting_driver ''playwright_screenshot'' ?a (initial fresh)) = Inr ?r"
    unfolding handleToolCall_after(2) [OF ensureBrowser_counting_initial] counting_screenshot_result
    by (simp add: arg_def fresh_def b64_char_def)
  then have h3: "handleToolCall counting_driver ''playwright_screenshot'' ?a (initial fresh) = (Inr ?r, ?s')"
    by (simp add: prod_eq_iff)
  have h4: "content ?r = [TextContent ''Screenshot 'shot1' taken at 800x600'',
      ImageContent ''iVAA'' ''image/png'']" by simp
  have h5: "''iVAA'' \<noteq> []" by simp
  from stored_screenshot_read_back [OF h1 h2 h3 h4 h5] h1 show ?thesis by simp
qed

section \<open>Names that contain the scheme separator\<close>

lemma count_list_distinct: "distinct xs \<Longrightarrow> x \<in> set xs \<Longrightarrow> count_list xs x = 1"
  by (induction xs) auto

text \<open>
  For a name without \<^verbatim>\<open>://\<close>, two screenshot calls in a row leave one key for the name
  and the second image under it.
\<close>

lemma capture_twice_last_write_wins:
  assumes "\<not> str_includes n ''://''"
    and "a1 ''name'' = Some (JStr n)" and "a2 ''name'' = Some (JStr n)"
    and "distinct (Map_keys (screenshots s))"
    and "handleToolCall d ''playwright_screenshot'' a1 s = (Inr r1, s1)"
    and "handleToolCall d ''playwright_screenshot'' a2 s1 = (Inr r2, s2)"
    and "content r2 = [t, ImageContent v mt]"
    and "v \<noteq> []"
  shows "ReadResource (''screenshot://'' @ n) s2 =
           Inr [BlobContents (''screenshot://'' @ n) ''image/png'' v] \<and>
         count_list (Map_keys (screenshots s2)) (JStr n) = 1"
proof -
  have d1: "distinct (Map_keys (screenshots s1))"
    using handleToolCall_distinct [OF assms(4), of d "''playwright_screenshot''" a1] assms(5) by simp
  have d2: "distinct (Map_keys (screenshots s2))"
    using handleToolCall_distinct [OF d1, of d "''playwright_screenshot''" a2] assms(6) by simp
  from handleToolCall_screenshot_success [OF assms(6)] assms(7)
  have "screenshots s2 = Map_set (arg a2 ''name'') v (screenshots s1)" by auto
  then have stored: "Map_get (screenshots s2) (JStr n) = Some v"
    using assms(3) by (simp add: Map_get_set arg_def)
  then have "JStr n \<in> set (Map_keys (screenshots s2))"
    unfolding Map_keys_dom by blast
  with d2 have "count_list (Map_keys (screenshots s2)) (JStr n) = 1"
    by (rule count_list_distinct)
  moreover have "ReadResource (''screenshot://'' @ n) s2 =
           Inr [BlobContents (''screenshot://'' @ n) ''image/png'' v]"
    unfolding read_screenshot_uri [OF assms(1)] using stored assms(8) by simp
  ultimately show ?thesis by simp
qed

text \<open>
  C6 asks, for every artifact name, that after two successful captures under it the list
  has one entry for the name and that reading the entry returns the second payload. With
  the name \<^verbatim>\<open>a://b\<close> the list has the one entry \<^verbatim>\<open>screenshot://a://b\<close> and the second
  image is stored under the name, but reading \<^verbatim>\<open>screenshot://a://b\<close> throws
  \<^verbatim>\<open>Resource not found\<close>: the handler looks up \<^verbatim>\<open>uri.split("://")[1]\<close>, which is \<^verbatim>\<open>a\<close>.
\<close>

theorem overwritten_artifact_with_separator_unreadable:
  "ListResources (serve counting_driver
       [CallTool ''playwright_screenshot'' (map_of [(''name'', JStr ''a://b'')]),
        CallTool ''playwright_screenshot'' (map_of [(''name'', JStr ''a://b'')])]
       (initial fresh)) =
     [\<lparr>uri = ''console://logs'', mimeType = ''text/plain'', name = ''Browser console logs''\<rparr>,
      \<lparr>uri = ''screenshot://a://b'', mimeType = ''image/png'', name = ''Screenshot: a://b''\<rparr>] \<and>
   Map_get (screenshots (serve counting_driver
       [CallTool ''playwright_screenshot'' (map_of [(''name'', JStr ''a://b'')]),
        CallTool ''playwright_screenshot'' (map_of [(''name'', JStr ''a://b'')])]
       (initial fresh))) (JStr ''a://b'') = Some ''iVAB'' \<and>
   ReadResource ''screenshot://a://b'' (serve counting_driver
       [CallTool ''playwright_screenshot'' (map_of [(''name'', JStr ''a://b'')]),
        CallTool ''playwright_screenshot'' (map_of [(''name'', JStr ''a://b'')])]
       (initial fresh)) =
     Inl (Error ''Resource not found: screenshot://a://b'')"
proof -
  have run: "serve counting_driver
       [CallTool ''playwright_screenshot'' (map_of [(''name'', JStr ''a://b'')]),
        CallTool ''playwright_screenshot'' (map_of [(''name'', JStr ''a://b'')])]
       (initial fresh) =
     \<lparr>browser = Some 0, page = Some 0, consoleLogs = [], screenshots = [(JStr ''a://b'', ''iVAB'')],
       outbox = [ResourcesListChanged, ResourcesListChanged],
       world = \<lparr>launches = 1, contexts = 1, pages = 1,
         viewport = Some (JNum ''800'', JNum ''600''), shots = 2\<rparr>\<rparr>"
    by (simp only: serve_def foldl.simps handle_event.simps one_capture second_capture)
  show ?thesis
    unfolding run
    by (simp add: ListResources_def Map_keys_def Map_get_def ReadResource_def startsWith_def
        str_split_def at_index_def)
qed

text \<open>
  C9 asks that every identifier other than the logs identifier and the
  \<^verbatim>\<open>screenshot://<name>\<close> of a stored name is not found. With one screenshot stored
  under \<^verbatim>\<open>a\<close>, nothing is stored under \<^verbatim>\<open>a://b\<close>, yet reading \<^verbatim>\<open>screenshot://a://b\<close>
  returns the image of \<^verbatim>\<open>a\<close>, for the same reason as above.
\<close>

theorem read_of_unstored_name_returns_other_artifact:
  "Map_keys (screenshots (serve counting_driver
       [CallTool ''playwright_screenshot'' (map_of [(''name'', JStr ''a'')])] (initial fresh))) =
     [JStr ''a''] \<and>
   Map_get (screenshots (serve counting_driver
       [CallTool ''playwright_screenshot'' (map_of [(''name'', JStr ''a'')])] (initial fresh)))
     (JStr ''a://b'') = None \<and>
   ''screenshot://a://b'' = ''screenshot://'' @ ''a://b'' \<and>
   ReadResource ''screenshot://a://b'' (serve counting_driver
       [CallTool ''playwright_screenshot'' (map_of [(''name'', JStr ''a'')])] (initial fresh)) =
     Inr [BlobContents ''screenshot://a://b'' ''image/png'' ''iVAA'']"
proof -
  have run: "serve counting_driver
       [CallTool ''playwright_screenshot'' (map_of [(''name'', JStr ''a'')])] (initial fresh) =
     \<lparr>browser = Some 0, page = Some 0, consoleLogs = [], screenshots = [(JStr ''a'', ''iVAA'')],
       outbox = [ResourcesListChanged],
       world = \<lparr>launches = 1, contexts = 1, pages = 1,
         viewport = Some (JNum ''800'', JNum ''600''), shots = 1\<rparr>\<rparr>"
    by (simp only: serve_def foldl.simps handle_event.simps one_capture)
  show ?thesis
    unfolding run
    by (simp add: Map_keys_def Map_get_def ReadResource_def startsWith_def
        str_split_def at_index_def)
qed

end
